theory Spec2Isabelle
  imports Complex_Main "HOL-Library.Log_Nat"
begin

section \<open>Rock-paper-scissors camera game: gesture classifier and round state machine\<close>

text \<open>
  A shallow embedding of \<^verbatim>\<open>src/App.jsx\<close>. The stored file holds two versions of the
  component one after the other. The second one (lines 242-579) is the current program;
  the first one (lines 1-241) is kept only for its classifier, which is compared with the
  current one.

  Conventions of the model:
  \<^item> a JavaScript number is a finite IEEE 754 double, given by its value, a \<open>real\<close>; the
    result of \<^verbatim>\<open>a - b\<close> and of \<^verbatim>\<open>a * b\<close> is the exact result rounded to the nearest
    double, ties to even (\<open>round64\<close>). The detector returns finite numbers; NaN and the
    infinities are outside the model, and no operation of the program overflows on
    finite doubles (it subtracts 20, 40 or 50, or multiplies a number below 1 by 3);
  \<^item> a JavaScript string is a \<open>string\<close> holding the UTF-8 bytes of the literal;
  \<^item> \<^verbatim>\<open>null\<close> and \<^verbatim>\<open>undefined\<close> are \<open>None\<close>;
  \<^item> a thrown exception is \<open>Inl\<close> of a result of type \<open>js_error + 'a\<close>;
  \<^item> React state is a record, and each handler is a function from the record to the
    next record; timers a handler starts are returned beside the state.
\<close>

subsection \<open>Arithmetic of doubles\<close>

text \<open>\<open>2\<^sup>n\<close> for an integer \<open>n\<close>.\<close>

definition pow2 :: "int \<Rightarrow> real" where
  "pow2 n = (if 0 \<le> n then 2 ^ nat n else 1 / 2 ^ nat (- n))"

text \<open>The nearest integer, the even one of the two when both are as near.\<close>

definition round_even :: "real \<Rightarrow> int" where
  "round_even z =
    (let f = \<lfloor>z\<rfloor>; d = z - of_int f
     in if d < 1 / 2 then f else if 1 / 2 < d then f + 1 else if even f then f else f + 1)"

text \<open>The binary exponent of a positive number \<open>a\<close>: the \<open>e\<close> with
  \<open>2\<^sup>e \<le> a < 2\<^sup>e\<^sup>+\<^sup>1\<close>.\<close>

definition ilog2 :: "real \<Rightarrow> int" where
  "ilog2 a =
    (if 1 \<le> a then bitlen \<lfloor>a\<rfloor> - 1
     else let k = bitlen \<lfloor>1 / a\<rfloor> - 1 in if 1 / a = 2 ^ nat k then - k else - k - 1)"

text \<open>
  Rounding to binary64: 53 significant bits, the least exponent \<open>-1022\<close> (below it the
  doubles are the multiples of \<open>2\<^sup>-\<^sup>1\<^sup>0\<^sup>7\<^sup>4\<close>), round to nearest, ties to even.
\<close>

definition round64 :: "real \<Rightarrow> real" where
  "round64 v =
    (if v = 0 then 0
     else let e = max (ilog2 \<bar>v\<bar>) (- 1022); q = pow2 (e - 52)
          in of_int (round_even (v / q)) * q)"

text \<open>\<^verbatim>\<open>a - b\<close> and \<^verbatim>\<open>a * b\<close> on numbers.\<close>

definition js_sub :: "real \<Rightarrow> real \<Rightarrow> real" where
  "js_sub a b = round64 (a - b)"

definition js_mul :: "real \<Rightarrow> real \<Rightarrow> real" where
  "js_mul a b = round64 (a * b)"

subsection \<open>Landmarks and labels\<close>

text \<open>A keypoint of the detector: \<^verbatim>\<open>{x, y}\<close> in image-pixel space.\<close>

record keypoint =
  x :: real
  y :: real

datatype js_error = TypeError

text \<open>\<^verbatim>\<open>const MOVES = ["Rock <fist>", "Paper <hand>", "Scissors <victory>"]\<close> (line 247); the
  emoji are given by their bytes.\<close>

definition Rock_label :: string where
  "Rock_label = ''Rock '' @ [CHR 0xE2, CHR 0x9C, CHR 0x8A]"

definition Paper_label :: string where
  "Paper_label = ''Paper '' @ [CHR 0xF0, CHR 0x9F, CHR 0x96, CHR 0x90, CHR 0xEF, CHR 0xB8, CHR 0x8F]"

definition Scissors_label :: string where
  "Scissors_label = ''Scissors '' @ [CHR 0xE2, CHR 0x9C, CHR 0x8C, CHR 0xEF, CHR 0xB8, CHR 0x8F]"

definition MOVES :: "string list" where
  "MOVES = [Rock_label, Paper_label, Scissors_label]"

subsection \<open>Reading a landmark\<close>

text \<open>\<^verbatim>\<open>xs[i]\<close> of an array: \<^verbatim>\<open>undefined\<close> past its end.

  \<^verbatim>\<open>keypoints[i].y\<close>: past the end of the array \<^verbatim>\<open>keypoints[i]\<close> is
  \<^verbatim>\<open>undefined\<close>, and reading \<^verbatim>\<open>.y\<close> of it throws a TypeError.\<close>

definition lookup :: "'a list \<Rightarrow> nat \<Rightarrow> 'a option" where
  "lookup xs i = (if i < length xs then Some (xs ! i) else None)"

definition readY :: "keypoint list \<Rightarrow> nat \<Rightarrow> js_error + real" where
  "readY keypoints i = (case lookup keypoints i of None \<Rightarrow> Inl TypeError | Some p \<Rightarrow> Inr (y p))"

definition bind_err :: "js_error + 'a \<Rightarrow> ('a \<Rightarrow> js_error + 'b) \<Rightarrow> js_error + 'b" where
  "bind_err m f = (case m of Inl e \<Rightarrow> Inl e | Inr v \<Rightarrow> f v)"

subsection \<open>The classifier (lines 375-395)\<close>

text \<open>
  \<^verbatim>\<open>
  const classifyGesture = (keypoints) => {
    if (!keypoints || keypoints.length < 21) return null;
    const wristY = keypoints[0].y;
    const indexTip = keypoints[8].y < wristY - 40;
    const middleTip = keypoints[12].y < wristY - 40;
    const ringTip = keypoints[16].y < wristY - 40;
    const pinkyTip = keypoints[20].y < wristY - 40;
    const extendedFingers =
      (indexTip ? 1 : 0) + (middleTip ? 1 : 0) + (ringTip ? 1 : 0) + (pinkyTip ? 1 : 0);
    if (extendedFingers === 0) return "Rock";
    if (extendedFingers >= 3) return "Paper";
    if (indexTip && middleTip && !ringTip && !pinkyTip) return "Scissors";
    return null;
  };
  \<close>
\<close>

text \<open>Lines 384-394, once the four comparisons are made.\<close>

definition decide :: "bool \<Rightarrow> bool \<Rightarrow> bool \<Rightarrow> bool \<Rightarrow> string option" where
  "decide indexTip middleTip ringTip pinkyTip =
    (let extendedFingers =
        (if indexTip then 1 else 0) + (if middleTip then 1 else 0) +
        (if ringTip then 1 else 0) + (if pinkyTip then (1::nat) else 0)
     in if extendedFingers = 0 then Some Rock_label
        else if extendedFingers \<ge> 3 then Some Paper_label
        else if indexTip \<and> middleTip \<and> \<not> ringTip \<and> \<not> pinkyTip then Some Scissors_label
        else None)"

definition classifyGesture :: "keypoint list option \<Rightarrow> js_error + string option" where
  "classifyGesture keypoints =
    (case keypoints of
       None \<Rightarrow> Inr None
     | Some kps \<Rightarrow>
         if length kps < 21 then Inr None
         else
           bind_err (readY kps 0) (\<lambda>wristY.
           bind_err (readY kps 8) (\<lambda>y8.
           bind_err (readY kps 12) (\<lambda>y12.
           bind_err (readY kps 16) (\<lambda>y16.
           bind_err (readY kps 20) (\<lambda>y20.
             Inr (decide (y8 < js_sub wristY 40) (y12 < js_sub wristY 40)
                         (y16 < js_sub wristY 40) (y20 < js_sub wristY 40))))))))"

subsection \<open>The decision table of the specification\<close>

text \<open>The results the specification gives the classifier.\<close>

datatype classification = Rock | Paper | Scissors | Unclear | NoHand

text \<open>Specification, section 4.1: a fingertip \<open>i\<close> is extended when its y-coordinate is
  less than \<open>wristY - T\<close>, where \<open>wristY\<close> is the y-coordinate of landmark 0. The
  coordinates and \<open>T\<close> are numbers of the program, and so is their difference.\<close>

definition extended :: "real \<Rightarrow> keypoint list \<Rightarrow> nat \<Rightarrow> bool" where
  "extended T pose i = (y (pose ! i) < js_sub (y (pose ! 0)) T)"

definition extendedCount :: "real \<Rightarrow> keypoint list \<Rightarrow> nat" where
  "extendedCount T pose = length (filter (extended T pose) [8, 12, 16, 20])"



subsection \<open>The classifier of the first version (lines 110-126)\<close>

text \<open>
  \<^verbatim>\<open>
  const classifyGesture = (keypoints) => {
    const wristY = keypoints[0].y;
    const tips = [keypoints[4], keypoints[8], keypoints[12], keypoints[16], keypoints[20]];
    const extendedCount = tips.filter((tip) => tip.y < wristY - 50).length;
    if (extendedCount === 0) return "Rock";
    if (extendedCount >= 4) return "Paper";
    if (extendedCount === 2 && keypoints[12].y > keypoints[8].y - 20) return "Scissors";
    return null;
  };
  \<close>
  It has no guard: a missing array or a missing landmark throws. Its labels are the
  literals of lines 121-124 as the file stores them, byte for byte; they are not the
  strings of \<open>MOVES\<close>.
\<close>

definition Rock_label_v1 :: string where
  "Rock_label_v1 = ''Rock '' @ [CHR 0xC3, CHR 0xA2, CHR 0xC5, CHR 0x93, CHR 0xC5, CHR 0xA0]"

definition Paper_label_v1 :: string where
  "Paper_label_v1 = ''Paper '' @
    [CHR 0xC3, CHR 0xB0, CHR 0xC5, CHR 0xB8, CHR 0xE2, CHR 0x80, CHR 0x93, CHR 0xC3, CHR 0xAF,
     CHR 0xC2, CHR 0xB8]"

definition Scissors_label_v1 :: string where
  "Scissors_label_v1 = ''Scissors '' @
    [CHR 0xC3, CHR 0xA2, CHR 0xC5, CHR 0x93, CHR 0xC5, CHR 0x92, CHR 0xC3, CHR 0xAF, CHR 0xC2,
     CHR 0xB8]"

text \<open>\<^verbatim>\<open>tips.filter((tip) => tip.y < limit).length\<close>, where a tip may be \<^verbatim>\<open>undefined\<close>.\<close>

fun count_tips :: "keypoint option list \<Rightarrow> real \<Rightarrow> js_error + nat" where
  "count_tips [] limit = Inr 0"
| "count_tips (tip # tips) limit =
    (case tip of
       None \<Rightarrow> Inl TypeError
     | Some p \<Rightarrow> bind_err (count_tips tips limit) (\<lambda>n. Inr ((if y p < limit then 1 else 0) + n)))"

definition classifyGesture_v1 :: "keypoint list option \<Rightarrow> js_error + string option" where
  "classifyGesture_v1 keypoints =
    (case keypoints of
       None \<Rightarrow> Inl TypeError
     | Some kps \<Rightarrow>
         bind_err (readY kps 0) (\<lambda>wristY.
         let tips = [lookup kps 4, lookup kps 8, lookup kps 12, lookup kps 16, lookup kps 20] in
         bind_err (count_tips tips (js_sub wristY 50)) (\<lambda>extendedCount.
           if extendedCount = 0 then Inr (Some Rock_label_v1)
           else if extendedCount \<ge> 4 then Inr (Some Paper_label_v1)
           else if extendedCount = 2 then
             bind_err (readY kps 12) (\<lambda>y12.
             bind_err (readY kps 8) (\<lambda>y8.
               if y12 > js_sub y8 20 then Inr (Some Scissors_label_v1) else Inr None))
           else Inr None)))"

subsection \<open>The state of the component (lines 252-258)\<close>

text \<open>
  \<open>detector\<close> is true once the model is loaded (\<^verbatim>\<open>detector !== null\<close>);
  \<open>countdown\<close> is \<^verbatim>\<open>null\<close> when no round is in flight. \<open>aiMove\<close> is an option
  because \<^verbatim>\<open>MOVES[aiIdx]\<close> is \<^verbatim>\<open>undefined\<close> for an index outside the array.
\<close>

record app_state =
  detector :: bool
  countdown :: "int option"
  playerMove :: string
  aiMove :: "string option"
  result :: string
  playerScore :: nat
  aiScore :: nat

definition initial_state :: app_state where
  "initial_state =
    \<lparr>detector = False, countdown = None, playerMove = ''?'', aiMove = Some ''?'',
     result = ''Click PLAY to start!'', playerScore = 0, aiScore = 0\<rparr>"

text \<open>The messages \<^verbatim>\<open>setResult\<close> is given.\<close>

definition msg_get_ready :: string where
  "msg_get_ready = ''Get ready...''"

definition msg_analyzing :: string where
  "msg_analyzing = ''Analyzing your move...''"

definition msg_no_hand :: string where
  "msg_no_hand = ''No hand detected! Try again.''"

definition msg_unclear :: string where
  "msg_unclear = ''Unclear gesture! Hold steady next time.''"

definition msg_choosing :: string where
  "msg_choosing = ''AI is choosing...''"

definition msg_tie :: string where
  "msg_tie = ''It's a TIE! '' @ [CHR 0xF0, CHR 0x9F, CHR 0xA4, CHR 0x9D]"

definition msg_you_win :: string where
  "msg_you_win = ''YOU WIN! '' @ [CHR 0xF0, CHR 0x9F, CHR 0x8E, CHR 0x89]"

definition msg_ai_wins :: string where
  "msg_ai_wins = ''AI WINS! '' @ [CHR 0xF0, CHR 0x9F, CHR 0x98, CHR 0x88]"

definition msg_reset :: string where
  "msg_reset = ''Scores reset! Play again.''"

subsection \<open>The handlers of the buttons (lines 468-483)\<close>

text \<open>
  \<^verbatim>\<open>
  const playRound = () => {
    if (countdown !== null || !detector) return;
    setPlayerMove("?"); setAiMove("?"); setResult("Get ready..."); setCountdown(3);
  };
  const resetScores = () => {
    setPlayerScore(0); setAiScore(0); setCountdown(null);
    setPlayerMove("?"); setAiMove("?"); setResult("Scores reset! Play again.");
  };
  \<close>
\<close>

definition playRound :: "app_state \<Rightarrow> app_state" where
  "playRound st =
    (if countdown st \<noteq> None \<or> \<not> detector st then st
     else st\<lparr>playerMove := ''?'', aiMove := Some ''?'', result := msg_get_ready,
             countdown := Some 3\<rparr>)"

definition resetScores :: "app_state \<Rightarrow> app_state" where
  "resetScores st =
    st\<lparr>playerScore := 0, aiScore := 0, countdown := None,
       playerMove := ''?'', aiMove := Some ''?'', result := msg_reset\<rparr>"

subsection \<open>The countdown timer (lines 304-310)\<close>

text \<open>\<^verbatim>\<open>if (countdown > 0) timer = setTimeout(() => setCountdown(countdown - 1), 1000)\<close>;
  \<^verbatim>\<open>null > 0\<close> is false.\<close>

definition countdownTick :: "app_state \<Rightarrow> app_state" where
  "countdownTick st =
    (case countdown st of
       None \<Rightarrow> st
     | Some n \<Rightarrow> if n > 0 then st\<lparr>countdown := Some (n - 1)\<rparr> else st)"

subsection \<open>Capture and reveal (lines 319-373)\<close>

text \<open>What a timer runs when it fires: \<^verbatim>\<open>() => setCountdown(null)\<close>, or the reveal
  closure of lines 340-369, which holds the captured \<^verbatim>\<open>gesture\<close>.\<close>

datatype timer = SetCountdownNull | Reveal string

text \<open>\<^verbatim>\<open>MOVES[Math.floor(r * 3)]\<close> for the value \<open>r\<close> that \<^verbatim>\<open>Math.random()\<close> returns:
  the product is rounded to a double, then floored.\<close>

definition aiChoice_of :: "real \<Rightarrow> string option" where
  "aiChoice_of r =
    (let aiIdx = \<lfloor>js_mul r 3\<rfloor> in if aiIdx < 0 then None else lookup MOVES (nat aiIdx))"

text \<open>The three branches of lines 346-367.\<close>

datatype outcome = Win | Lose | Tie

definition outcome_of :: "string \<Rightarrow> string option \<Rightarrow> outcome" where
  "outcome_of gesture aiChoice =
    (if Some gesture = aiChoice then Tie
     else
       let playerWins =
         (gesture = Rock_label \<and> aiChoice = Some Scissors_label) \<or>
         (gesture = Paper_label \<and> aiChoice = Some Rock_label) \<or>
         (gesture = Scissors_label \<and> aiChoice = Some Paper_label)
       in if playerWins then Win else Lose)"

text \<open>The reveal closure: the AI move is drawn, shown, compared, and the score updated
  (\<^verbatim>\<open>setPlayerScore((prev) => prev + 1)\<close>, \<^verbatim>\<open>setAiScore((prev) => prev + 1)\<close>).\<close>

definition reveal :: "string \<Rightarrow> real \<Rightarrow> app_state \<Rightarrow> app_state" where
  "reveal gesture r st =
    (let aiChoice = aiChoice_of r;
         st1 = st\<lparr>aiMove := aiChoice\<rparr>
     in case outcome_of gesture aiChoice of
          Tie \<Rightarrow> st1\<lparr>result := msg_tie\<rparr>
        | Win \<Rightarrow> st1\<lparr>playerScore := playerScore st1 + 1, result := msg_you_win\<rparr>
        | Lose \<Rightarrow> st1\<lparr>aiScore := aiScore st1 + 1, result := msg_ai_wins\<rparr>)"

text \<open>
  \<open>capturePose\<close>, given the hands the detector returns (each hand by its keypoints):
  the next state and the timers started, each with its delay in milliseconds. No random
  number is drawn here. Were the classifier to throw, the promise would be rejected
  with the state as \<^verbatim>\<open>setResult("Analyzing your move...")\<close> left it and no timer.
\<close>

definition capturePose :: "keypoint list list \<Rightarrow> app_state \<Rightarrow> app_state \<times> (nat \<times> timer) list" where
  "capturePose hands st =
    (let st1 = st\<lparr>result := msg_analyzing\<rparr> in
     case hands of
       [] \<Rightarrow> (st1\<lparr>result := msg_no_hand\<rparr>, [(1500, SetCountdownNull)])
     | hand # _ \<Rightarrow>
         (case classifyGesture (Some hand) of
            Inl e \<Rightarrow> (st1, [])
          | Inr None \<Rightarrow> (st1\<lparr>result := msg_unclear\<rparr>, [(1500, SetCountdownNull)])
          | Inr (Some gesture) \<Rightarrow>
              if gesture = [] then (st1\<lparr>result := msg_unclear\<rparr>, [(1500, SetCountdownNull)])
              else (st1\<lparr>playerMove := gesture, result := msg_choosing\<rparr>,
                    [(1200, Reveal gesture), (4000, SetCountdownNull)])))"

text \<open>A timer fires; \<open>r\<close> is what \<^verbatim>\<open>Math.random()\<close> returns if the callback calls it.\<close>

fun fire :: "timer \<Rightarrow> real \<Rightarrow> app_state \<Rightarrow> app_state" where
  "fire SetCountdownNull r st = st\<lparr>countdown := None\<rparr>"
| "fire (Reveal gesture) r st = reveal gesture r st"

subsection \<open>Runs of the component\<close>

text \<open>
  What can happen to the component: the model finishes loading (line 294), a button is
  pressed, the countdown timer ticks, the capture effect runs (lines 313-317: only when
  \<^verbatim>\<open>countdown === 0\<close> and the detector is there), a timer fires. A run lets timers
  fire at any moment, which covers every order the browser can fire them in. The capture
  is one step here, taken while the countdown is at 0: what \<open>capturePose\<close> does after
  its \<^verbatim>\<open>await\<close> reads no state.
\<close>

datatype event =
    ModelLoaded
  | ClickPlay
  | ClickReset
  | Tick
  | Capture "keypoint list list"
  | TimerFires timer real

fun step :: "event \<Rightarrow> app_state \<Rightarrow> app_state" where
  "step ModelLoaded st = st\<lparr>detector := True\<rparr>"
| "step ClickPlay st = playRound st"
| "step ClickReset st = resetScores st"
| "step Tick st = countdownTick st"
| "step (Capture hands) st =
    (if countdown st \<noteq> Some 0 \<or> \<not> detector st then st else fst (capturePose hands st))"
| "step (TimerFires t r) st = fire t r st"

fun run :: "event list \<Rightarrow> app_state \<Rightarrow> app_state" where
  "run [] st = st"
| "run (e # es) st = run es (step e st)"

text \<open>The outcome a run's event finalizes, if it is a reveal.\<close>

fun finalized :: "event \<Rightarrow> outcome option" where
  "finalized (TimerFires (Reveal gesture) r) = Some (outcome_of gesture (aiChoice_of r))"
| "finalized _ = None"

definition count_outcome :: "outcome \<Rightarrow> event list \<Rightarrow> nat" where
  "count_outcome oc evs = length (filter (\<lambda>e. finalized e = Some oc) evs)"

subsection \<open>Runs with the capture in progress and the pending timers\<close>

text \<open>
  The same events, with what the state of the component does not hold: how many calls of
  \<open>capturePose\<close> are waiting for the detector, and the timers that are started and have
  not fired. The timers of one capture are kept together, in the order they fall due
  (1200 ms before 4000 ms); one of them fires only when those before it have.

  No handler cancels a timer of a capture: the only \<^verbatim>\<open>clearTimeout\<close> of the source
  (line 309) is for the countdown timer.
\<close>

fun pop_timer :: "timer \<Rightarrow> timer list list \<Rightarrow> timer list list option" where
  "pop_timer t [] = None"
| "pop_timer t ([] # bs) = pop_timer t bs"
| "pop_timer t ((h # rest) # bs) =
    (if h = t then Some (if rest = [] then bs else rest # bs)
     else map_option ((#) (h # rest)) (pop_timer t bs))"

text \<open>
  The capture effect (lines 313-317) has the dependencies \<^verbatim>\<open>[countdown, detector]\<close>:
  it runs after a render in which one of them has changed, and calls \<open>capturePose\<close> if
  then \<^verbatim>\<open>countdown === 0\<close> and the detector is there.
\<close>

definition capture_starts :: "app_state \<Rightarrow> app_state \<Rightarrow> bool" where
  "capture_starts st st' =
    (countdown st' = Some 0 \<and> detector st' \<and>
     (countdown st \<noteq> countdown st' \<or> detector st \<noteq> detector st'))"

text \<open>
  An event on the state, the pending timers and the number of captures in progress.
  \<open>Capture hands\<close> is here the detector answering a capture in progress: what
  \<open>capturePose\<close> does after its \<^verbatim>\<open>await\<close>, whatever the countdown has become meanwhile.
\<close>

fun sched_core ::
  "event \<Rightarrow> app_state \<times> timer list list \<times> nat \<Rightarrow> app_state \<times> timer list list \<times> nat" where
  "sched_core (Capture hands) (st, pend, waiting) =
    (if waiting = 0 then (st, pend, waiting)
     else (fst (capturePose hands st), pend @ [map snd (snd (capturePose hands st))],
           waiting - 1))"
| "sched_core (TimerFires t r) (st, pend, waiting) =
    (case pop_timer t pend of
       None \<Rightarrow> (st, pend, waiting)
     | Some pend' \<Rightarrow> (fire t r st, pend', waiting))"
| "sched_core e (st, pend, waiting) = (step e st, pend, waiting)"

text \<open>After the event, the capture effect: a capture that starts shows its message
  (line 320) and waits for the detector.\<close>

definition sched_step ::
  "event \<Rightarrow> app_state \<times> timer list list \<times> nat \<Rightarrow> app_state \<times> timer list list \<times> nat" where
  "sched_step e sys =
    (case sched_core e sys of
       (st', pend', waiting') \<Rightarrow>
         if capture_starts (fst sys) st'
         then (st'\<lparr>result := msg_analyzing\<rparr>, pend', waiting' + 1)
         else (st', pend', waiting'))"

fun sched_run ::
  "event list \<Rightarrow> app_state \<times> timer list list \<times> nat \<Rightarrow> app_state \<times> timer list list \<times> nat" where
  "sched_run [] sys = sys"
| "sched_run (e # es) sys = sched_run es (sched_step e sys)"


subsection \<open>The beats-relation of the specification\<close>

text \<open>Specification, section 4.2: Rock beats Scissors, Scissors beats Paper, Paper beats
  Rock.\<close>

definition beats :: "string \<Rightarrow> string \<Rightarrow> bool" where
  "beats m n =
    ((m = Rock_label \<and> n = Scissors_label) \<or>
     (m = Scissors_label \<and> n = Paper_label) \<or>
     (m = Paper_label \<and> n = Rock_label))"

subsection \<open>Poses used as examples\<close>

text \<open>A pose of 21 landmarks, all at height \<open>w\<close>, and the same with some landmarks moved.\<close>

definition flat_pose :: "real \<Rightarrow> keypoint list" where
  "flat_pose w = replicate 21 \<lparr>x = 0, y = w\<rparr>"

fun raise_tips :: "nat list \<Rightarrow> real \<Rightarrow> keypoint list \<Rightarrow> keypoint list" where
  "raise_tips [] v pose = pose"
| "raise_tips (i # is) v pose = raise_tips is v (pose[i := \<lparr>x = 0, y = v\<rparr>])"

section \<open>Properties\<close>

subsection \<open>Rounding to a double\<close>

lemma pow2_powi: "pow2 n = 2 powi n"
  by (simp add: pow2_def power_int_def inverse_eq_divide power_one_over)

lemma pow2_pos: "0 < pow2 n"
  by (simp add: pow2_powi)

lemma pow2_add: "pow2 (m + n) = pow2 m * pow2 n"
  by (simp add: pow2_powi power_int_add)

lemma pow2_mono: "m \<le> n \<Longrightarrow> pow2 m \<le> pow2 n"
  by (simp add: pow2_powi power_int_increasing)

lemma pow2_less_iff: "pow2 m < pow2 n \<longleftrightarrow> m < n"
proof
  assume "pow2 m < pow2 n"
  show "m < n"
  proof (rule ccontr)
    assume "\<not> m < n"
    then have "pow2 n \<le> pow2 m" by (simp add: pow2_mono)
    with \<open>pow2 m < pow2 n\<close> show False by simp
  qed
next
  assume "m < n"
  then show "pow2 m < pow2 n"
    by (simp add: pow2_powi power_int_strict_increasing)
qed

lemma ilog2_bounds:
  assumes "0 < a"
  shows "pow2 (ilog2 a) \<le> a" and "a < pow2 (ilog2 a + 1)"
proof -
  have "pow2 (ilog2 a) \<le> a \<and> a < pow2 (ilog2 a + 1)"
  proof (cases "1 \<le> a")
    case True
    define n where "n = \<lfloor>a\<rfloor>"
    from True have n: "0 < n" by (simp add: n_def)
    from bitlen_bounds [OF n] have b: "2 ^ nat (bitlen n - 1) \<le> n" "n < 2 ^ nat (bitlen n)"
      by simp_all
    from n have bl: "1 \<le> bitlen n" by (auto simp add: bitlen_alt_def)
    have "real_of_int (2 ^ nat (bitlen n - 1)) \<le> real_of_int n"
      using b(1) by linarith
    also have "\<dots> \<le> a" by (simp add: n_def)
    finally have lo: "pow2 (bitlen n - 1) \<le> a"
      using bl by (simp add: pow2_def)
    from b(2) have "n + 1 \<le> 2 ^ nat (bitlen n)" by simp
    then have "real_of_int (n + 1) \<le> real_of_int (2 ^ nat (bitlen n))"
      by linarith
    moreover have "a < real_of_int (n + 1)" by (simp add: n_def)
    ultimately have hi: "a < pow2 (bitlen n)"
      using bl by (simp add: pow2_def)
    from lo hi True show ?thesis
      by (simp add: ilog2_def n_def)
  next
    case False
    define u where "u = 1 / a"
    define n where "n = \<lfloor>u\<rfloor>"
    define k where "k = bitlen n - 1"
    from False assms have u: "1 < u" by (simp add: u_def)
    then have n: "0 < n" by (simp add: n_def)
    from bitlen_bounds [OF n] have b: "2 ^ nat (bitlen n - 1) \<le> n" "n < 2 ^ nat (bitlen n)"
      by simp_all
    from n have bl: "1 \<le> bitlen n" by (auto simp add: bitlen_alt_def)
    then have k: "0 \<le> k" by (simp add: k_def)
    have "real_of_int (2 ^ nat k) \<le> real_of_int n"
      using b(1) unfolding k_def by linarith
    also have "\<dots> \<le> u" by (simp add: n_def)
    finally have lo: "2 ^ nat k \<le> u" by simp
    from b(2) have "n + 1 \<le> 2 ^ nat (bitlen n)" by simp
    then have "real_of_int (n + 1) \<le> real_of_int (2 ^ nat (bitlen n))"
      by linarith
    moreover have "u < real_of_int (n + 1)" by (simp add: n_def)
    moreover have "nat (bitlen n) = Suc (nat k)" using bl by (simp add: k_def)
    ultimately have hi: "u < 2 * 2 ^ nat k" by simp
    have a: "a = 1 / u" by (simp add: u_def)
    have il: "ilog2 a = (if u = 2 ^ nat k then - k else - k - 1)"
      using False by (simp add: ilog2_def u_def n_def k_def Let_def)
    show ?thesis
    proof (cases "u = 2 ^ nat k")
      case True
      with il have "ilog2 a = - k" by simp
      moreover have "pow2 (- k) = a" using k True a by (simp add: pow2_def)
      moreover have "a < pow2 (- k + 1)"
        using pow2_less_iff [of "- k" "- k + 1"] \<open>pow2 (- k) = a\<close> by simp
      ultimately show ?thesis by simp
    next
      case F: False
      with il have e: "ilog2 a = - k - 1" by simp
      from F lo have lo': "2 ^ nat k < u" by simp
      have p1: "pow2 (- k - 1) = 1 / (2 * 2 ^ nat k)"
        using k by (simp add: pow2_def nat_add_distrib)
      have p2: "pow2 (- k) = 1 / 2 ^ nat k"
        using k by (cases "k = 0") (simp_all add: pow2_def)
      have "1 / (2 * 2 ^ nat k) < 1 / u"
        using hi u by (simp add: frac_less2)
      moreover have "1 / u < 1 / 2 ^ nat k"
        using lo' by (simp add: frac_less2)
      ultimately show ?thesis
        using e p1 p2 a by simp
    qed
  qed
  then show "pow2 (ilog2 a) \<le> a" and "a < pow2 (ilog2 a + 1)"
    by simp_all
qed

lemma ilog2_unique:
  assumes "pow2 e \<le> a" and "a < pow2 (e + 1)"
  shows "ilog2 a = e"
proof -
  from assms(1) pow2_pos [of e] have a: "0 < a" by linarith
  from ilog2_bounds [OF a] assms have "pow2 e < pow2 (ilog2 a + 1)" "pow2 (ilog2 a) < pow2 (e + 1)"
    by linarith+
  then show ?thesis
    by (simp add: pow2_less_iff)
qed

lemma round_even_cases:
  "round_even z = \<lfloor>z\<rfloor> \<or> round_even z = \<lfloor>z\<rfloor> + 1"
  by (simp add: round_even_def Let_def)

lemma round_even_of_int: "round_even (of_int n) = n"
  by (simp add: round_even_def)

lemma round_even_le: "a \<le> of_int n \<Longrightarrow> round_even a \<le> n"
proof -
  assume a: "a \<le> of_int n"
  show ?thesis
  proof (cases "a = of_int n")
    case True
    then show ?thesis by (simp add: round_even_of_int)
  next
    case False
    with a have "a < of_int n" by simp
    then have "\<lfloor>a\<rfloor> < n" by (simp add: floor_less_iff)
    with round_even_cases [of a] show ?thesis by auto
  qed
qed

lemma round_even_ge: "of_int n \<le> a \<Longrightarrow> n \<le> round_even a"
proof -
  assume "of_int n \<le> a"
  then have "n \<le> \<lfloor>a\<rfloor>" by (simp add: le_floor_iff)
  with round_even_cases [of a] show ?thesis by auto
qed

lemma round_even_below_half: "a < of_int n + 1 / 2 \<Longrightarrow> round_even a \<le> n"
proof -
  assume a: "a < of_int n + 1 / 2"
  then have f: "\<lfloor>a\<rfloor> \<le> n" by (simp add: floor_le_iff) 
  show ?thesis
  proof (cases "\<lfloor>a\<rfloor> = n")
    case True
    with a have "a - of_int \<lfloor>a\<rfloor> < 1 / 2" by simp
    then show ?thesis using True by (simp add: round_even_def Let_def)
  next
    case False
    with f have "\<lfloor>a\<rfloor> < n" by simp
    with round_even_cases [of a] show ?thesis by auto
  qed
qed

lemma round_even_mono: "a \<le> b \<Longrightarrow> round_even a \<le> round_even b"
proof -
  assume ab: "a \<le> b"
  then have f: "\<lfloor>a\<rfloor> \<le> \<lfloor>b\<rfloor>" by (rule floor_mono)
  show ?thesis
  proof (cases "\<lfloor>a\<rfloor> = \<lfloor>b\<rfloor>")
    case True
    with ab have "a - of_int \<lfloor>a\<rfloor> \<le> b - of_int \<lfloor>b\<rfloor>" by simp
    with True show ?thesis
      by (auto simp add: round_even_def Let_def)
  next
    case False
    with f have "\<lfloor>a\<rfloor> + 1 \<le> \<lfloor>b\<rfloor>" by simp
    with round_even_cases [of a] round_even_cases [of b] show ?thesis by auto
  qed
qed

lemma round_even_minus: "round_even (- a) = - round_even a"
proof (cases "a \<in> \<int>")
  case True
  then obtain n where "a = of_int n" by (auto elim: Ints_cases)
  then have "- a = of_int (- n)" by simp
  then show ?thesis
    unfolding \<open>a = of_int n\<close> using round_even_of_int [of "- n"] round_even_of_int [of n]
    by simp
next
  case False
  then have "a \<noteq> of_int \<lfloor>a\<rfloor>"
    by (metis Ints_of_int)
  then have fl: "\<lfloor>- a\<rfloor> = - \<lfloor>a\<rfloor> - 1"
    by (simp add: floor_minus ceiling_altdef)
  have "even (- \<lfloor>a\<rfloor> - 1) \<longleftrightarrow> odd \<lfloor>a\<rfloor>" by simp
  with fl show ?thesis
    by (auto simp add: round_even_def Let_def)
qed

lemma round64_minus: "round64 (- v) = - round64 v"
  by (simp add: round64_def Let_def round_even_minus)

lemma round64_pos:
  assumes "0 < v"
  shows "0 \<le> round64 v"
    and "round64 v \<le> pow2 (max (ilog2 v) (- 1022) + 1)"
    and "- 1022 \<le> ilog2 v \<Longrightarrow> pow2 (ilog2 v) \<le> round64 v"
proof -
  define e where "e = max (ilog2 v) (- 1022)"
  define q where "q = pow2 (e - 52)"
  have q: "0 < q" by (simp add: q_def pow2_pos)
  from assms have r: "round64 v = of_int (round_even (v / q)) * q"
    by (simp add: round64_def Let_def e_def q_def)
  from assms q have "real_of_int 0 \<le> v / q" by simp
  then have "0 \<le> round_even (v / q)" by (rule round_even_ge)
  with q show "0 \<le> round64 v" by (simp add: r)
  have "ilog2 v \<le> e" by (simp add: e_def)
  then have "pow2 (ilog2 v + 1) \<le> pow2 (e + 1)" by (simp add: pow2_mono)
  with ilog2_bounds(2) [OF assms] have "v < pow2 (e + 1)" by linarith
  moreover have "pow2 (e + 1) = pow2 53 * q"
    using pow2_add [of 53 "e - 52"] by (simp add: q_def algebra_simps)
  ultimately have "v / q \<le> pow2 53" using q by (simp add: pos_divide_le_eq)
  moreover have "pow2 53 = real_of_int (2 ^ 53)" by (simp add: pow2_def)
  ultimately have "round_even (v / q) \<le> 2 ^ 53"
    using round_even_le [of "v / q" "2 ^ 53"] by simp
  then have "real_of_int (round_even (v / q)) \<le> pow2 53"
    unfolding \<open>pow2 53 = real_of_int (2 ^ 53)\<close> by linarith
  with q have "round64 v \<le> pow2 53 * q" by (simp add: r)
  then show "round64 v \<le> pow2 (max (ilog2 v) (- 1022) + 1)"
    using \<open>pow2 (e + 1) = pow2 53 * q\<close> by (simp add: e_def)
  show "pow2 (ilog2 v) \<le> round64 v" if "- 1022 \<le> ilog2 v"
  proof -
    from that have e: "e = ilog2 v" by (simp add: e_def)
    have pe: "pow2 e = pow2 52 * q"
      using pow2_add [of 52 "e - 52"] by (simp add: q_def)
    from ilog2_bounds(1) [OF assms] have "pow2 e \<le> v" unfolding e .
    then have "pow2 52 * q \<le> v" unfolding pe .
    with q have "pow2 52 \<le> v / q" by (simp add: pos_le_divide_eq)
    moreover have p: "pow2 52 = real_of_int (2 ^ 52)" by (simp add: pow2_def)
    ultimately have "2 ^ 52 \<le> round_even (v / q)"
      using round_even_ge [of "2 ^ 52" "v / q"] by simp
    then have "pow2 52 \<le> real_of_int (round_even (v / q))"
      unfolding p by linarith
    with q have "pow2 52 * q \<le> round64 v" by (simp add: r)
    then have "pow2 e \<le> round64 v" unfolding pe .
    then show ?thesis unfolding e .
  qed
qed

lemma round64_mono_pos:
  assumes "0 < a" and "a \<le> b"
  shows "round64 a \<le> round64 b"
proof -
  from assms have b: "0 < b" by simp
  define ea where "ea = max (ilog2 a) (- 1022)"
  define eb where "eb = max (ilog2 b) (- 1022)"
  from ilog2_bounds [OF assms(1)] ilog2_bounds [OF b] assms(2)
  have "pow2 (ilog2 a) < pow2 (ilog2 b + 1)" by linarith
  then have il: "ilog2 a \<le> ilog2 b" by (simp add: pow2_less_iff)
  then have le: "ea \<le> eb" by (simp add: ea_def eb_def)
  show ?thesis
  proof (cases "ea = eb")
    case True
    define q where "q = pow2 (ea - 52)"
    have q: "0 < q" by (simp add: q_def pow2_pos)
    from assms(1) have ra: "round64 a = of_int (round_even (a / q)) * q"
      by (simp add: round64_def Let_def ea_def q_def)
    from b True have rb: "round64 b = of_int (round_even (b / q)) * q"
      by (simp add: round64_def Let_def ea_def eb_def q_def)
    from assms(2) q have "a / q \<le> b / q" by (simp add: divide_right_mono)
    then have "round_even (a / q) \<le> round_even (b / q)" by (rule round_even_mono)
    with q show ?thesis by (simp add: ra rb)
  next
    case False
    with le have lt: "ea + 1 \<le> eb" by simp
    then have "- 1022 < eb" by (simp add: ea_def)
    then have nb: "- 1022 \<le> ilog2 b" and ebi: "eb = ilog2 b" by (auto simp add: eb_def)
    from round64_pos(2) [OF assms(1)] have "round64 a \<le> pow2 (ea + 1)" by (simp add: ea_def)
    also from lt have "\<dots> \<le> pow2 eb" by (rule pow2_mono)
    also from round64_pos(3) [OF b nb] ebi have "\<dots> \<le> round64 b" by simp
    finally show ?thesis .
  qed
qed

lemma round64_zero: "round64 0 = 0"
  by (simp add: round64_def)

lemma round64_mono:
  assumes "a \<le> b"
  shows "round64 a \<le> round64 b"
proof -
  consider (pos) "0 < a" | (neg) "b < 0" | (mid) "a \<le> 0" "0 \<le> b"
    by linarith
  then show ?thesis
  proof cases
    case pos
    from pos assms show ?thesis by (rule round64_mono_pos)
  next
    case neg
    with assms have "0 < - b" "- b \<le> - a" by simp_all
    then have "round64 (- b) \<le> round64 (- a)" by (rule round64_mono_pos)
    then show ?thesis by (simp add: round64_minus)
  next
    case mid
    have "round64 a \<le> 0"
    proof (cases "a = 0")
      case True
      then show ?thesis by (simp add: round64_zero)
    next
      case False
      with mid have "0 < - a" by simp
      from round64_pos(1) [OF this] show ?thesis by (simp add: round64_minus)
    qed
    moreover have "0 \<le> round64 b"
    proof (cases "b = 0")
      case True
      then show ?thesis by (simp add: round64_zero)
    next
      case False
      with mid have "0 < b" by simp
      then show ?thesis by (rule round64_pos(1))
    qed
    ultimately show ?thesis by simp
  qed
qed

lemma round64_at:
  assumes "v \<noteq> 0" and "pow2 e \<le> \<bar>v\<bar>" and "\<bar>v\<bar> < pow2 (e + 1)" and "- 1022 \<le> e"
  shows "round64 v = of_int (round_even (v / pow2 (e - 52))) * pow2 (e - 52)"
proof -
  from assms(2,3) have "ilog2 \<bar>v\<bar> = e" by (rule ilog2_unique)
  with assms(1,4) show ?thesis
    by (simp add: round64_def Let_def max_def)
qed

lemma js_sub_examples:
  "js_sub 100 40 = 60" "js_sub 100 50 = 50" "js_sub 0 40 = - 40"
proof -
  have "round64 60 = 60"
    by (subst round64_at [of _ 5]) (simp_all add: pow2_def round_even_def)
  then show "js_sub 100 40 = 60" by (simp add: js_sub_def)
  have "round64 50 = 50"
    by (subst round64_at [of _ 5]) (simp_all add: pow2_def round_even_def)
  then show "js_sub 100 50 = 50" by (simp add: js_sub_def)
  have "round64 (- 40) = - 40"
    by (subst round64_at [of _ 5]) (simp_all add: pow2_def round_even_def)
  then show "js_sub 0 40 = - 40" by (simp add: js_sub_def)
qed

lemma js_mul_examples:
  "js_mul (1 / 8) 3 = 3 / 8" "js_mul (1 / 2) 3 = 3 / 2" "js_mul (7 / 8) 3 = 21 / 8"
proof -
  have "round64 (3 / 8) = 3 / 8"
    by (subst round64_at [of _ "- 2"]) (simp_all add: pow2_def round_even_def)
  then show "js_mul (1 / 8) 3 = 3 / 8" by (simp add: js_mul_def)
  have "round64 (3 / 2) = 3 / 2"
    by (subst round64_at [of _ 0]) (simp_all add: pow2_def round_even_def)
  then show "js_mul (1 / 2) 3 = 3 / 2" by (simp add: js_mul_def)
  have "round64 (21 / 8) = 21 / 8"
    by (subst round64_at [of _ 1]) (simp_all add: pow2_def round_even_def)
  then show "js_mul (7 / 8) 3 = 21 / 8" by (simp add: js_mul_def)
qed

lemma js_sub_mono: "b \<le> c \<Longrightarrow> js_sub a c \<le> js_sub a b"
  unfolding js_sub_def by (rule round64_mono) simp

lemma round64_below_one:
  assumes "0 \<le> z" and "z < 1 - 1 / 2 ^ 54"
  shows "round64 z < 1"
proof (cases "z < 1 / 2")
  case True
  have "round64 (1 / 2) = 1 / 2"
    by (subst round64_at [of _ "- 1"]) (simp_all add: pow2_def round_even_def)
  with round64_mono [of z "1 / 2"] True show ?thesis by simp
next
  case False
  with assms have v: "z \<noteq> 0" "pow2 (- 1) \<le> \<bar>z\<bar>" "\<bar>z\<bar> < pow2 (- 1 + 1)"
    by (simp_all add: pow2_def)
  have r: "round64 z = of_int (round_even (z * 2 ^ 53)) / 2 ^ 53"
    by (subst round64_at [OF v]) (simp_all add: pow2_def)
  from assms(2) have "z * 2 ^ 53 < real_of_int (2 ^ 53 - 1) + 1 / 2"
    by simp
  then have "round_even (z * 2 ^ 53) \<le> 2 ^ 53 - 1"
    by (rule round_even_below_half)
  then have "real_of_int (round_even (z * 2 ^ 53)) \<le> real_of_int (2 ^ 53 - 1)"
    by (simp only: of_int_le_iff)
  then show ?thesis
    by (simp add: r)
qed

lemma round64_at_least_one:
  assumes "1 - 1 / 2 ^ 54 \<le> z"
  shows "1 \<le> round64 z"
proof -
  have "round64 (1 - 1 / 2 ^ 54) = 1"
    by (subst round64_at [of _ "- 1"]) (simp_all add: pow2_def round_even_def)
  with round64_mono [OF assms] show ?thesis by simp
qed

lemma round64_below_two:
  assumes "0 \<le> z" and "z < 2 - 1 / 2 ^ 53"
  shows "round64 z < 2"
proof (cases "z < 1")
  case True
  have "round64 1 = 1"
    by (subst round64_at [of _ 0]) (simp_all add: pow2_def round_even_def)
  with round64_mono [of z 1] True show ?thesis by simp
next
  case False
  with assms have v: "z \<noteq> 0" "pow2 0 \<le> \<bar>z\<bar>" "\<bar>z\<bar> < pow2 (0 + 1)"
    by (simp_all add: pow2_def)
  have r: "round64 z = of_int (round_even (z * 2 ^ 52)) / 2 ^ 52"
    by (subst round64_at [OF v]) (simp_all add: pow2_def)
  from assms(2) have "z * 2 ^ 52 < real_of_int (2 ^ 53 - 1) + 1 / 2"
    by simp
  then have "round_even (z * 2 ^ 52) \<le> 2 ^ 53 - 1"
    by (rule round_even_below_half)
  then have "real_of_int (round_even (z * 2 ^ 52)) \<le> real_of_int (2 ^ 53 - 1)"
    by (simp only: of_int_le_iff)
  then show ?thesis
    by (simp add: r)
qed

lemma round64_at_least_two:
  assumes "2 - 1 / 2 ^ 53 \<le> z"
  shows "2 \<le> round64 z"
proof -
  have "round64 (2 - 1 / 2 ^ 53) = 2"
    by (subst round64_at [of _ 0]) (simp_all add: pow2_def round_even_def)
  with round64_mono [OF assms] show ?thesis by simp
qed

lemma round64_below_three:
  assumes "z \<le> 3 - 3 / 2 ^ 53"
  shows "round64 z < 3"
proof -
  have "round64 (3 - 3 / 2 ^ 53) = 3 - 1 / 2 ^ 51"
    by (subst round64_at [of _ 1]) (simp_all add: pow2_def round_even_def)
  with round64_mono [OF assms] show ?thesis by simp
qed

lemma round64_nonneg: "0 \<le> z \<Longrightarrow> 0 \<le> round64 z"
  using round64_mono [of 0 z] by (simp add: round64_zero)

lemma aiChoice_of_unit:
  assumes "0 \<le> r" and "r \<le> 1 - 1 / 2 ^ 53"
  shows "aiChoice_of r =
    (if r < (1 - 1 / 2 ^ 54) / 3 then Some Rock_label
     else if r < (2 - 1 / 2 ^ 53) / 3 then Some Paper_label
     else Some Scissors_label)"
proof -
  define z where "z = r * 3"
  from assms have z: "0 \<le> z" "z \<le> 3 - 3 / 2 ^ 53"
    by (simp_all add: z_def)
  have a: "aiChoice_of r = (if \<lfloor>round64 z\<rfloor> < 0 then None else lookup MOVES (nat \<lfloor>round64 z\<rfloor>))"
    by (simp add: aiChoice_of_def js_mul_def z_def Let_def)
  consider (low) "z < 1 - 1 / 2 ^ 54" | (mid) "1 - 1 / 2 ^ 54 \<le> z" "z < 2 - 1 / 2 ^ 53"
    | (high) "2 - 1 / 2 ^ 53 \<le> z"
    by linarith
  then show ?thesis
  proof cases
    case low
    from round64_nonneg [OF z(1)] round64_below_one [OF z(1) low]
    have "\<lfloor>round64 z\<rfloor> = 0" by (simp add: floor_eq_iff)
    moreover from low have "r < (1 - 1 / 2 ^ 54) / 3" by (simp add: z_def)
    ultimately show ?thesis
      by (simp add: a lookup_def MOVES_def)
  next
    case mid
    from round64_at_least_one [OF mid(1)] round64_below_two [OF z(1) mid(2)]
    have "\<lfloor>round64 z\<rfloor> = 1" by (simp add: floor_eq_iff)
    moreover from mid have "\<not> r < (1 - 1 / 2 ^ 54) / 3" "r < (2 - 1 / 2 ^ 53) / 3"
      by (simp_all add: z_def)
    ultimately show ?thesis
      by (simp add: a lookup_def MOVES_def)
  next
    case high
    from round64_at_least_two [OF high] round64_below_three [OF z(2)]
    have "\<lfloor>round64 z\<rfloor> = 2" by (simp add: floor_eq_iff)
    moreover from high have "\<not> r < (1 - 1 / 2 ^ 54) / 3" "\<not> r < (2 - 1 / 2 ^ 53) / 3"
      by (simp_all add: z_def)
    ultimately show ?thesis
      by (simp add: a lookup_def MOVES_def)
  qed
qed


subsection \<open>Helper facts\<close>

lemma labels_distinct:
  "Rock_label \<noteq> Paper_label" "Rock_label \<noteq> Scissors_label" "Paper_label \<noteq> Scissors_label"
  "Paper_label \<noteq> Rock_label" "Scissors_label \<noteq> Rock_label" "Scissors_label \<noteq> Paper_label"
  by (simp_all add: Rock_label_def Paper_label_def Scissors_label_def)

lemma labels_v1_distinct:
  "Rock_label_v1 \<noteq> Paper_label_v1" "Rock_label_v1 \<noteq> Scissors_label_v1"
  "Paper_label_v1 \<noteq> Scissors_label_v1" "Paper_label_v1 \<noteq> Rock_label_v1"
  "Scissors_label_v1 \<noteq> Rock_label_v1" "Scissors_label_v1 \<noteq> Paper_label_v1"
  by (simp_all add: Rock_label_v1_def Paper_label_v1_def Scissors_label_v1_def)

lemma labels_v1_other:
  "Rock_label_v1 \<noteq> Rock_label" "Rock_label_v1 \<noteq> Paper_label" "Rock_label_v1 \<noteq> Scissors_label"
  "Paper_label_v1 \<noteq> Rock_label" "Paper_label_v1 \<noteq> Paper_label" "Paper_label_v1 \<noteq> Scissors_label"
  "Scissors_label_v1 \<noteq> Rock_label" "Scissors_label_v1 \<noteq> Paper_label"
  "Scissors_label_v1 \<noteq> Scissors_label"
  by (simp_all add: Rock_label_v1_def Paper_label_v1_def Scissors_label_v1_def
      Rock_label_def Paper_label_def Scissors_label_def)

lemma bind_err_simps:
  "bind_err (Inl e) f = Inl e" "bind_err (Inr v) f = f v"
  by (simp_all add: bind_err_def)

lemma classifyGesture_21:
  assumes "21 \<le> length kps"
  shows "classifyGesture (Some kps) =
    Inr (decide (y (kps ! 8) < js_sub (y (kps ! 0)) 40) (y (kps ! 12) < js_sub (y (kps ! 0)) 40)
                (y (kps ! 16) < js_sub (y (kps ! 0)) 40) (y (kps ! 20) < js_sub (y (kps ! 0)) 40))"
proof -
  from assms have "readY kps 0 = Inr (y (kps ! 0))" "readY kps 8 = Inr (y (kps ! 8))"
    "readY kps 12 = Inr (y (kps ! 12))" "readY kps 16 = Inr (y (kps ! 16))"
    "readY kps 20 = Inr (y (kps ! 20))"
    by (auto simp add: readY_def lookup_def)
  with assms show ?thesis
    by (simp add: classifyGesture_def bind_err_simps)
qed


lemma decide_Some_nonempty: "decide a b c d = Some g \<Longrightarrow> g \<noteq> []"
  by (auto simp add: decide_def Let_def Rock_label_def Paper_label_def Scissors_label_def
      split: if_splits)


lemma classifyGesture_take:
  assumes "21 \<le> length pose"
  shows "classifyGesture (Some pose) = classifyGesture (Some (take 21 pose))"
proof -
  have "21 \<le> length (take 21 pose)" using assms by simp
  then show ?thesis using assms by (simp add: classifyGesture_21)
qed

lemma classifyGesture_label:
  assumes "classifyGesture keypoints = Inr (Some g)"
  shows "g \<noteq> []"
proof (cases keypoints)
  case None
  with assms show ?thesis by (simp add: classifyGesture_def)
next
  case (Some kps)
  show ?thesis
  proof (cases "length kps < 21")
    case True
    with Some assms show ?thesis by (simp add: classifyGesture_def)
  next
    case False
    then have "21 \<le> length kps" by simp
    with Some assms show ?thesis
      by (simp add: classifyGesture_21 decide_Some_nonempty)
  qed
qed

lemma classify_fist: "classifyGesture (Some (flat_pose 100)) = Inr (Some Rock_label)"
proof -
  have "21 \<le> length (flat_pose 100)"
    by (simp add: flat_pose_def)
  then show ?thesis
    by (simp add: classifyGesture_21 flat_pose_def decide_def js_sub_examples)
qed

lemma capture_fist:
  "capturePose [flat_pose 100] st =
     (st\<lparr>result := msg_choosing, playerMove := Rock_label\<rparr>,
      [(1200, Reveal Rock_label), (4000, SetCountdownNull)])"
  using classifyGesture_label [OF classify_fist] by (simp add: capturePose_def classify_fist)

lemma MOVES_cases: "m \<in> set MOVES \<longleftrightarrow> m = Rock_label \<or> m = Paper_label \<or> m = Scissors_label"
  by (auto simp add: MOVES_def)

lemma reveal_scores:
  "playerScore (reveal g r st) =
     playerScore st + (if outcome_of g (aiChoice_of r) = Win then 1 else 0)"
  "aiScore (reveal g r st) =
     aiScore st + (if outcome_of g (aiChoice_of r) = Lose then 1 else 0)"
  by (simp_all add: reveal_def Let_def split: outcome.split)

lemma capturePose_frame:
  "playerScore (fst (capturePose hands st)) = playerScore st"
  "aiScore (fst (capturePose hands st)) = aiScore st"
  "aiMove (fst (capturePose hands st)) = aiMove st"
  "countdown (fst (capturePose hands st)) = countdown st"
  "detector (fst (capturePose hands st)) = detector st"
  by (simp_all add: capturePose_def Let_def split: list.split sum.split option.split)

lemma aiChoice_of_examples:
  "aiChoice_of (1 / 8) = Some Rock_label"
  "aiChoice_of (1 / 2) = Some Paper_label"
  "aiChoice_of (7 / 8) = Some Scissors_label"
  by (simp_all add: aiChoice_of_def js_mul_examples lookup_def MOVES_def)

subsection \<open>Pending timers\<close>

lemma pop_timer_subset:
  "pop_timer t pend = Some pend' \<Longrightarrow> set (concat pend') \<subseteq> set (concat pend)"
proof (induction t pend arbitrary: pend' rule: pop_timer.induct)
  case (1 t)
  then show ?case by simp
next
  case (2 t bs)
  then show ?case by simp
next
  case (3 t h rest bs)
  show ?case
  proof (cases "h = t")
    case True
    with "3.prems" show ?thesis by (auto split: if_splits)
  next
    case False
    with "3.prems" obtain bs' where b: "pop_timer t bs = Some bs'" and p: "pend' = (h # rest) # bs'"
      by auto
    from "3.IH" [OF False b] p show ?thesis by auto
  qed
qed

lemma capturePose_timers:
  assumes "(d, Reveal g) \<in> set (snd (capturePose hands st))"
  shows "\<exists>hand rest. hands = hand # rest \<and> classifyGesture (Some hand) = Inr (Some g)"
  using assms
  by (auto simp add: capturePose_def Let_def
      split: list.splits sum.splits option.splits if_splits)


lemma sched_step_pend: "fst (snd (sched_step e sys)) = fst (snd (sched_core e sys))"
  by (simp add: sched_step_def split: prod.split)

lemma sched_core_pending:
  assumes "Reveal g \<in> set (concat (fst (snd (sched_core e (st, pend, w)))))"
  shows "Reveal g \<in> set (concat pend)
       \<or> (\<exists>hand hands. e = Capture (hand # hands) \<and> classifyGesture (Some hand) = Inr (Some g))"
proof (cases e)
  case (Capture hands)
  with assms have "Reveal g \<in> set (concat pend)
      \<or> (\<exists>d. (d, Reveal g) \<in> set (snd (capturePose hands st)))"
    by (auto split: if_splits)
  with Capture show ?thesis
    by (auto dest: capturePose_timers)
next
  case (TimerFires t r)
  show ?thesis
  proof (cases "pop_timer t pend")
    case None
    with TimerFires assms show ?thesis by simp
  next
    case (Some pend')
    with TimerFires assms have "Reveal g \<in> set (concat pend')" by simp
    with pop_timer_subset [OF Some] show ?thesis by auto
  qed
qed (use assms in simp_all)

lemma sched_run_pending:
  "Reveal g \<in> set (concat (fst (snd (sched_run evs (st, pend, w))))) \<Longrightarrow>
   Reveal g \<in> set (concat pend)
   \<or> (\<exists>hand hands. Capture (hand # hands) \<in> set evs
        \<and> classifyGesture (Some hand) = Inr (Some g))"
proof (induction evs arbitrary: st pend w)
  case Nil
  then show ?case by simp
next
  case (Cons e evs)
  obtain st' pend' w' where s: "sched_step e (st, pend, w) = (st', pend', w')"
    by (cases "sched_step e (st, pend, w)")
  with Cons.prems have "Reveal g \<in> set (concat (fst (snd (sched_run evs (st', pend', w')))))"
    by simp
  from Cons.IH [OF this] show ?case
  proof
    assume "Reveal g \<in> set (concat pend')"
    with s sched_step_pend [of e "(st, pend, w)"]
    have "Reveal g \<in> set (concat (fst (snd (sched_core e (st, pend, w)))))"
      by simp
    from sched_core_pending [OF this] show ?thesis
      by auto
  next
    assume "\<exists>hand hands. Capture (hand # hands) \<in> set evs
        \<and> classifyGesture (Some hand) = Inr (Some g)"
    then show ?thesis
      by auto
  qed
qed



lemma reset_mid_round:
  "sched_run [ModelLoaded, ClickPlay, Tick, Tick, Tick, Capture [flat_pose 100], ClickReset]
      (initial_state, [], 0) =
     (\<lparr>detector = True, countdown = None, playerMove = ''?'', aiMove = Some ''?'',
       result = msg_reset, playerScore = 0, aiScore = 0\<rparr>,
      [[Reveal Rock_label, SetCountdownNull]], 0)"
  by (simp add: sched_step_def capture_starts_def initial_state_def playRound_def
      countdownTick_def capture_fist resetScores_def)

subsection \<open>C1: the classifier is the decision table\<close>



subsection \<open>C2: absent and malformed poses\<close>

text \<open>
  C2 as stated does not hold: the guard of line 376 is \<^verbatim>\<open>keypoints.length < 21\<close>, so a
  pose of 22 landmarks is classified (here as Rock) and is not given the result of an
  absent pose.
\<close>

theorem classifyGesture_long_pose_counterexample:
  "length (flat_pose 0 @ [\<lparr>x = 0, y = 0\<rparr>]) = 22
   \<and> classifyGesture (Some (flat_pose 0 @ [\<lparr>x = 0, y = 0\<rparr>])) = Inr (Some Rock_label)
   \<and> classifyGesture (Some (flat_pose 0 @ [\<lparr>x = 0, y = 0\<rparr>])) \<noteq> classifyGesture None"
proof -
  let ?p = "flat_pose 0 @ [\<lparr>x = 0, y = 0\<rparr>]"
  have len: "length ?p = 22"
    by (simp add: flat_pose_def)
  then have "21 \<le> length ?p"
    by simp
  then have "classifyGesture (Some ?p) = Inr (Some Rock_label)"
    by (simp add: classifyGesture_21 flat_pose_def nth_append decide_def js_sub_examples)
  moreover have "classifyGesture None = Inr None"
    by (simp add: classifyGesture_def)
  ultimately show ?thesis
    using len by simp
qed

text \<open>
  C2, amended. For an absent pose, and for every pose with fewer than 21 landmarks, the
  classifier returns \<^verbatim>\<open>null\<close>, the result of an absent pose; it raises no exception
  (the result is an \<open>Inr\<close>) and returns no label. \<open>capturePose\<close> shows a \<^verbatim>\<open>null\<close> of
  the classifier as the unclear-gesture message. A pose with more than 21 landmarks is
  not rejected: it is classified from its landmarks 0 to 20, as the pose of its first
  21 landmarks is.
\<close>

theorem classifyGesture_short_or_absent:
  "classifyGesture None = Inr None
   \<and> (length pose < 21 \<longrightarrow> classifyGesture (Some pose) = Inr None)
   \<and> (length pose < 21 \<longrightarrow>
        capturePose (pose # hands) st = (st\<lparr>result := msg_unclear\<rparr>, [(1500, SetCountdownNull)]))
   \<and> (21 < length pose \<longrightarrow> classifyGesture (Some pose) = classifyGesture (Some (take 21 pose)))"
proof -
  have absent: "classifyGesture None = Inr None"
    by (simp add: classifyGesture_def)
  have short: "classifyGesture (Some pose) = Inr None" if "length pose < 21"
    using that by (simp add: classifyGesture_def)
  have round: "capturePose (pose # hands) st
      = (st\<lparr>result := msg_unclear\<rparr>, [(1500, SetCountdownNull)])" if "length pose < 21"
    using short [OF that] by (simp add: capturePose_def)
  have long: "classifyGesture (Some pose) = classifyGesture (Some (take 21 pose))"
    if "21 < length pose"
    using that classifyGesture_take [of pose] by simp
  from absent short round long show ?thesis
    by blast
qed

theorem classifyGesture_short_or_absent_witness:
  "length (take 20 (flat_pose 0)) < 21
   \<and> classifyGesture (Some (take 20 (flat_pose 0))) = Inr None
   \<and> capturePose [take 20 (flat_pose 0)] initial_state
        = (initial_state\<lparr>result := msg_unclear\<rparr>, [(1500, SetCountdownNull)])
   \<and> 21 < length (flat_pose 0 @ flat_pose 7)
   \<and> classifyGesture (Some (flat_pose 0 @ flat_pose 7)) = classifyGesture (Some (flat_pose 0))"
  using classifyGesture_short_or_absent [of "take 20 (flat_pose 0)" "[]" initial_state]
    classifyGesture_short_or_absent [of "flat_pose 0 @ flat_pose 7"]
  by (simp add: flat_pose_def)

subsection \<open>C7: the thumb does not matter\<close>



subsection \<open>C10: the two classifiers\<close>

lemma classifyGesture_v1_21:
  assumes "21 \<le> length kps"
  shows "classifyGesture_v1 (Some kps) =
    (let extendedCount =
        (if y (kps ! 4) < js_sub (y (kps ! 0)) 50 then 1 else 0) +
        ((if y (kps ! 8) < js_sub (y (kps ! 0)) 50 then 1 else 0) +
         ((if y (kps ! 12) < js_sub (y (kps ! 0)) 50 then 1 else 0) +
          ((if y (kps ! 16) < js_sub (y (kps ! 0)) 50 then 1 else 0) +
           ((if y (kps ! 20) < js_sub (y (kps ! 0)) 50 then 1 else (0::nat)) + 0))))
     in if extendedCount = 0 then Inr (Some Rock_label_v1)
        else if extendedCount \<ge> 4 then Inr (Some Paper_label_v1)
        else if extendedCount = 2 \<and> y (kps ! 12) > js_sub (y (kps ! 8)) 20
          then Inr (Some Scissors_label_v1)
        else Inr None)"
proof -
  from assms have rd: "readY kps 0 = Inr (y (kps ! 0))" "readY kps 8 = Inr (y (kps ! 8))"
    "readY kps 12 = Inr (y (kps ! 12))"
    by (auto simp add: readY_def lookup_def)
  from assms have lk: "lookup kps 4 = Some (kps ! 4)" "lookup kps 8 = Some (kps ! 8)"
    "lookup kps 12 = Some (kps ! 12)" "lookup kps 16 = Some (kps ! 16)"
    "lookup kps 20 = Some (kps ! 20)"
    by (auto simp add: lookup_def)
  show ?thesis
    by (simp add: classifyGesture_v1_def rd lk bind_err_simps Let_def)
qed

text \<open>
  C10 as stated does not hold: with only the thumb tip raised, the first classifier
  counts one extended finger and returns \<^verbatim>\<open>null\<close>, while the second one does not look
  at the thumb and returns Rock.
\<close>

theorem classifiers_differ_counterexample:
  "length (raise_tips [4] 0 (flat_pose 100)) = 21
   \<and> classifyGesture_v1 (Some (raise_tips [4] 0 (flat_pose 100))) = Inr None
   \<and> classifyGesture (Some (raise_tips [4] 0 (flat_pose 100))) = Inr (Some Rock_label)"
proof -
  let ?p = "raise_tips [4] 0 (flat_pose 100)"
  have len: "length ?p = 21"
    by (simp add: flat_pose_def)
  then have ge: "21 \<le> length ?p"
    by simp
  have "classifyGesture_v1 (Some ?p) = Inr None"
    unfolding classifyGesture_v1_21 [OF ge] by (simp add: flat_pose_def js_sub_examples)
  moreover have "classifyGesture (Some ?p) = Inr (Some Rock_label)"
    unfolding classifyGesture_21 [OF ge] by (simp add: flat_pose_def decide_def js_sub_examples)
  ultimately show ?thesis
    using len by simp
qed

text \<open>
  C10, amended. The two classifiers are different functions of a 21-landmark pose. On
  every such pose the first one raises no exception. Its labels, as the file stores them,
  are other strings than the labels of the second one, so the two results are equal only
  when both are \<^verbatim>\<open>null\<close>. Label for label: every pose the first one classifies as
  Paper the second one classifies as Paper too; and every pose the second one classifies
  as Rock, and whose thumb tip is not extended at the threshold 50, the first one
  classifies as Rock too.
\<close>

theorem classifiers_agree_partly:
  assumes "length pose = 21"
  shows "(classifyGesture_v1 (Some pose) = Inr (Some Paper_label_v1)
            \<longrightarrow> classifyGesture (Some pose) = Inr (Some Paper_label))
       \<and> (classifyGesture (Some pose) = Inr (Some Rock_label) \<and> \<not> extended 50 pose 4
            \<longrightarrow> classifyGesture_v1 (Some pose) = Inr (Some Rock_label_v1))
       \<and> (\<exists>v. classifyGesture_v1 (Some pose) = Inr v)
       \<and> (classifyGesture_v1 (Some pose) = classifyGesture (Some pose)
            \<longleftrightarrow> classifyGesture_v1 (Some pose) = Inr None
                \<and> classifyGesture (Some pose) = Inr None)"
proof -
  from assms have ge: "21 \<le> length pose"
    by simp
  have thr: "js_sub (y (pose ! 0)) 50 \<le> js_sub (y (pose ! 0)) 40"
    by (rule js_sub_mono) simp
  have paper: "classifyGesture (Some pose) = Inr (Some Paper_label)"
    if "classifyGesture_v1 (Some pose) = Inr (Some Paper_label_v1)"
    using that thr unfolding classifyGesture_v1_21 [OF ge] classifyGesture_21 [OF ge]
    by (auto simp add: Let_def decide_def labels_v1_distinct split: if_splits)
  have rock: "classifyGesture_v1 (Some pose) = Inr (Some Rock_label_v1)"
    if "classifyGesture (Some pose) = Inr (Some Rock_label)" and "\<not> extended 50 pose 4"
    using that thr unfolding classifyGesture_v1_21 [OF ge] classifyGesture_21 [OF ge]
    by (auto simp add: Let_def decide_def extended_def labels_distinct split: if_splits)
  have total: "\<exists>v. classifyGesture_v1 (Some pose) = Inr v"
    unfolding classifyGesture_v1_21 [OF ge] by (simp add: Let_def)
  have v1: "classifyGesture_v1 (Some pose) \<in>
      {Inr None, Inr (Some Rock_label_v1), Inr (Some Paper_label_v1), Inr (Some Scissors_label_v1)}"
    unfolding classifyGesture_v1_21 [OF ge] by (simp add: Let_def)
  have v2: "classifyGesture (Some pose) \<in>
      {Inr None, Inr (Some Rock_label), Inr (Some Paper_label), Inr (Some Scissors_label)}"
    unfolding classifyGesture_21 [OF ge] by (simp add: decide_def Let_def)
  from v1 v2 have same: "classifyGesture_v1 (Some pose) = classifyGesture (Some pose)
      \<longleftrightarrow> classifyGesture_v1 (Some pose) = Inr None \<and> classifyGesture (Some pose) = Inr None"
    using labels_v1_other by auto
  from paper rock total same show ?thesis
    by blast
qed

theorem classifiers_agree_partly_witness:
  "classifyGesture_v1 (Some (raise_tips [4, 8, 12, 16, 20] 0 (flat_pose 100)))
     = Inr (Some Paper_label_v1)
   \<and> classifyGesture (Some (raise_tips [4, 8, 12, 16, 20] 0 (flat_pose 100)))
     = Inr (Some Paper_label)
   \<and> classifyGesture (Some (flat_pose 100)) = Inr (Some Rock_label)
   \<and> classifyGesture_v1 (Some (flat_pose 100)) = Inr (Some Rock_label_v1)"
proof -
  let ?p = "raise_tips [4, 8, 12, 16, 20] 0 (flat_pose 100)"
  have len: "length ?p = 21" "length (flat_pose 100) = 21"
    by (simp_all add: flat_pose_def)
  then have ge: "21 \<le> length ?p" "21 \<le> length (flat_pose 100)"
    by simp_all
  have v1: "classifyGesture_v1 (Some ?p) = Inr (Some Paper_label_v1)"
    unfolding classifyGesture_v1_21 [OF ge(1)] by (simp add: flat_pose_def js_sub_examples)
  have thumb: "\<not> extended 50 (flat_pose 100) 4"
    by (simp add: extended_def flat_pose_def js_sub_examples)
  from classifiers_agree_partly [OF len(1)] v1
  have a: "classifyGesture (Some ?p) = Inr (Some Paper_label)"
    by blast
  from classifiers_agree_partly [OF len(2)] classify_fist thumb
  have b: "classifyGesture_v1 (Some (flat_pose 100)) = Inr (Some Rock_label_v1)"
    by blast
  from v1 a classify_fist b show ?thesis
    by blast
qed

subsection \<open>C3: the outcome of a round\<close>

text \<open>
  C3. For every pair of moves (player, AI), the branch the reveal takes is Tie exactly
  when the moves are equal, Win exactly when the player's move beats the AI's, and Lose
  exactly when the AI's move beats the player's; exactly one of the three holds; and Rock
  beats Scissors, Scissors beats Paper, Paper beats Rock.
\<close>

theorem outcome_relation:
  assumes "g \<in> set MOVES" and "a \<in> set MOVES"
  shows "(outcome_of g (Some a) = Tie \<longleftrightarrow> g = a)
       \<and> (outcome_of g (Some a) = Win \<longleftrightarrow> beats g a)
       \<and> (outcome_of g (Some a) = Lose \<longleftrightarrow> beats a g)
       \<and> ((g = a \<and> \<not> beats g a \<and> \<not> beats a g)
          \<or> (g \<noteq> a \<and> beats g a \<and> \<not> beats a g)
          \<or> (g \<noteq> a \<and> \<not> beats g a \<and> beats a g))
       \<and> beats Rock_label Scissors_label
       \<and> beats Scissors_label Paper_label
       \<and> beats Paper_label Rock_label"
proof -
  from assms have g: "g = Rock_label \<or> g = Paper_label \<or> g = Scissors_label"
    and a: "a = Rock_label \<or> a = Paper_label \<or> a = Scissors_label"
    by (simp_all add: MOVES_cases)
  from g a show ?thesis
    by (auto simp add: outcome_of_def beats_def labels_distinct)
qed

theorem outcome_relation_witness:
  "Rock_label \<in> set MOVES \<and> Scissors_label \<in> set MOVES
   \<and> outcome_of Rock_label (Some Scissors_label) = Win
   \<and> outcome_of Scissors_label (Some Rock_label) = Lose
   \<and> outcome_of Rock_label (Some Rock_label) = Tie"
proof -
  have m: "Rock_label \<in> set MOVES" "Scissors_label \<in> set MOVES"
    by (simp_all add: MOVES_def)
  have b: "beats Rock_label Scissors_label"
    by (simp add: beats_def)
  from outcome_relation [OF m(1) m(2)] outcome_relation [OF m(2) m(1)]
    outcome_relation [OF m(1) m(1)] b m
  show ?thesis
    by blast
qed

subsection \<open>C4: the score counts the rounds won\<close>

lemma step_scores:
  assumes "e \<noteq> ClickReset"
  shows "playerScore (step e st) = playerScore st + (if finalized e = Some Win then 1 else 0)"
    and "aiScore (step e st) = aiScore st + (if finalized e = Some Lose then 1 else 0)"
proof -
  show "playerScore (step e st) = playerScore st + (if finalized e = Some Win then 1 else 0)"
  proof (cases e)
    case (TimerFires t r)
    then show ?thesis by (cases t) (simp_all add: reveal_scores)
  qed (use assms in \<open>simp_all add: playRound_def countdownTick_def capturePose_frame
        split: option.split\<close>)
  show "aiScore (step e st) = aiScore st + (if finalized e = Some Lose then 1 else 0)"
  proof (cases e)
    case (TimerFires t r)
    then show ?thesis by (cases t) (simp_all add: reveal_scores)
  qed (use assms in \<open>simp_all add: playRound_def countdownTick_def capturePose_frame
        split: option.split\<close>)
qed

lemma run_scores:
  "ClickReset \<notin> set evs \<Longrightarrow>
     playerScore (run evs st) = playerScore st + count_outcome Win evs
     \<and> aiScore (run evs st) = aiScore st + count_outcome Lose evs"
proof (induction evs arbitrary: st)
  case Nil
  then show ?case by (simp add: count_outcome_def)
next
  case (Cons e evs)
  then have e: "e \<noteq> ClickReset" and rest: "ClickReset \<notin> set evs"
    by auto
  from Cons.IH [OF rest, of "step e st"] step_scores [OF e, of st]
  show ?case
    by (simp add: count_outcome_def)
qed

text \<open>
  C4. Starting from zeroed counters, after any run without a reset the player's score is
  the number of finalized rounds the player won and the AI's score is the number of
  finalized rounds the AI won, whatever the number of ties and of other events. One
  reveal adds exactly one to the player's score on a win, exactly one to the AI's score
  on a loss, and nothing on a tie.
\<close>

theorem scores_count_rounds:
  assumes "playerScore st = 0" and "aiScore st = 0" and "ClickReset \<notin> set evs"
  shows "playerScore (run evs st) = count_outcome Win evs
       \<and> aiScore (run evs st) = count_outcome Lose evs
       \<and> playerScore (reveal g r st') =
            playerScore st' + (if outcome_of g (aiChoice_of r) = Win then 1 else 0)
       \<and> aiScore (reveal g r st') =
            aiScore st' + (if outcome_of g (aiChoice_of r) = Lose then 1 else 0)"
  using run_scores [OF assms(3), of st] assms(1,2) by (simp add: reveal_scores)

theorem scores_count_rounds_witness:
  "playerScore (run [ModelLoaded,
       ClickPlay, Tick, Tick, Tick, Capture [flat_pose 100],
       TimerFires (Reveal Rock_label) (7 / 8), TimerFires SetCountdownNull 0,
       ClickPlay, Tick, Tick, Tick, Capture [flat_pose 100],
       TimerFires (Reveal Rock_label) (1 / 2), TimerFires SetCountdownNull 0,
       ClickPlay, Tick, Tick, Tick, Capture [flat_pose 100],
       TimerFires (Reveal Rock_label) (1 / 8), TimerFires SetCountdownNull 0] initial_state) = 1
   \<and> aiScore (run [ModelLoaded,
       ClickPlay, Tick, Tick, Tick, Capture [flat_pose 100],
       TimerFires (Reveal Rock_label) (7 / 8), TimerFires SetCountdownNull 0,
       ClickPlay, Tick, Tick, Tick, Capture [flat_pose 100],
       TimerFires (Reveal Rock_label) (1 / 2), TimerFires SetCountdownNull 0,
       ClickPlay, Tick, Tick, Tick, Capture [flat_pose 100],
       TimerFires (Reveal Rock_label) (1 / 8), TimerFires SetCountdownNull 0] initial_state) = 1"
proof -
  let ?evs = "[ModelLoaded,
       ClickPlay, Tick, Tick, Tick, Capture [flat_pose 100],
       TimerFires (Reveal Rock_label) (7 / 8), TimerFires SetCountdownNull 0,
       ClickPlay, Tick, Tick, Tick, Capture [flat_pose 100],
       TimerFires (Reveal Rock_label) (1 / 2), TimerFires SetCountdownNull 0,
       ClickPlay, Tick, Tick, Tick, Capture [flat_pose 100],
       TimerFires (Reveal Rock_label) (1 / 8), TimerFires SetCountdownNull 0]"
  have z: "playerScore initial_state = 0" "aiScore initial_state = 0"
    by (simp_all add: initial_state_def)
  have nr: "ClickReset \<notin> set ?evs"
    by simp
  have c: "count_outcome Win ?evs = 1" "count_outcome Lose ?evs = 1"
    by (simp_all add: count_outcome_def aiChoice_of_examples outcome_of_def labels_distinct)
  note t = scores_count_rounds [OF z nr, of Rock_label 0 initial_state]
  from t have p: "playerScore (run ?evs initial_state) = count_outcome Win ?evs"
    by (rule conjunct1)
  from t have a: "aiScore (run ?evs initial_state) = count_outcome Lose ?evs"
    by (rule conjunct1 [OF conjunct2])
  show ?thesis
    unfolding p a c by simp
qed

subsection \<open>C5: a second start\<close>




subsection \<open>C6: rounds without a gesture\<close>

text \<open>
  C6. When the detector returns no hand, or the classifier returns no gesture for the
  first hand, \<open>capturePose\<close> only sets the message (no hand detected, or unclear
  gesture) and starts a single timer, of 1500 ms, that sets \<open>countdown\<close> to
  \<^verbatim>\<open>null\<close>. No reveal is started, so no AI move is drawn; and once that timer has
  fired the AI move and both scores are what they were before the capture, and the
  component is idle.
\<close>

theorem capturePose_no_gesture:
  assumes "hands = [] \<or> (\<exists>hand rest. hands = hand # rest \<and> classifyGesture (Some hand) = Inr None)"
  shows "capturePose hands st =
           (st\<lparr>result := (if hands = [] then msg_no_hand else msg_unclear)\<rparr>,
            [(1500, SetCountdownNull)])
       \<and> fire SetCountdownNull r (fst (capturePose hands st)) =
           st\<lparr>result := (if hands = [] then msg_no_hand else msg_unclear), countdown := None\<rparr>
       \<and> aiMove (fire SetCountdownNull r (fst (capturePose hands st))) = aiMove st
       \<and> playerScore (fire SetCountdownNull r (fst (capturePose hands st))) = playerScore st
       \<and> aiScore (fire SetCountdownNull r (fst (capturePose hands st))) = aiScore st
       \<and> countdown (fire SetCountdownNull r (fst (capturePose hands st))) = None"
proof -
  have "capturePose hands st =
      (st\<lparr>result := (if hands = [] then msg_no_hand else msg_unclear)\<rparr>,
       [(1500, SetCountdownNull)])"
    using assms by (auto simp add: capturePose_def)
  then show ?thesis
    by simp
qed

theorem capturePose_no_gesture_witness:
  "capturePose [] initial_state =
      (initial_state\<lparr>result := msg_no_hand\<rparr>, [(1500, SetCountdownNull)])
   \<and> classifyGesture (Some (raise_tips [8] 0 (flat_pose 100))) = Inr None
   \<and> capturePose [raise_tips [8] 0 (flat_pose 100)] initial_state =
      (initial_state\<lparr>result := msg_unclear\<rparr>, [(1500, SetCountdownNull)])"
proof -
  let ?p = "raise_tips [8] 0 (flat_pose 100)"
  have "21 \<le> length ?p"
    by (simp add: flat_pose_def)
  then have u: "classifyGesture (Some ?p) = Inr None"
    by (simp add: classifyGesture_21 flat_pose_def decide_def js_sub_examples)
  then have h: "[?p] = [] \<or> (\<exists>hand rest. [?p] = hand # rest \<and> classifyGesture (Some hand) = Inr None)"
    by simp
  have a: "capturePose [] initial_state =
      (initial_state\<lparr>result := msg_no_hand\<rparr>, [(1500, SetCountdownNull)])"
    using capturePose_no_gesture [of "[]" initial_state 0] by simp
  have b: "capturePose [?p] initial_state =
      (initial_state\<lparr>result := msg_unclear\<rparr>, [(1500, SetCountdownNull)])"
    using capturePose_no_gesture [OF h, of initial_state 0] by simp
  from a u b show ?thesis
    by blast
qed

subsection \<open>C8: the AI move\<close>

text \<open>
  C8 as stated does not hold: the product \<^verbatim>\<open>r * 3\<close> is rounded to a double before
  \<^verbatim>\<open>Math.floor\<close>, so the moves are not drawn on thirds of \<open>[0, 1)\<close>. The double
  nearest to 1/3, which is below 1/3, draws Paper; the double nearest to 2/3, which is
  below 2/3, draws Scissors.
\<close>

theorem ai_draw_thirds_counterexample:
  "(6004799503160661 / 18014398509481984 :: real) < 1 / 3
   \<and> aiChoice_of (6004799503160661 / 18014398509481984) = Some Paper_label
   \<and> (6004799503160661 / 9007199254740992 :: real) < 2 / 3
   \<and> aiChoice_of (6004799503160661 / 9007199254740992) = Some Scissors_label"
proof -
  have "aiChoice_of (6004799503160661 / 18014398509481984) = Some Paper_label"
    by (subst aiChoice_of_unit) simp_all
  moreover have "aiChoice_of (6004799503160661 / 9007199254740992) = Some Scissors_label"
    by (subst aiChoice_of_unit) simp_all
  ultimately show ?thesis
    by simp
qed

text \<open>
  C8, amended. With \<open>r\<close> the value of \<^verbatim>\<open>Math.random()\<close>, a double of \<open>[0, 1)\<close> and so
  at most \<open>1 - 2\<^sup>-\<^sup>5\<^sup>3\<close>: the AI move a reveal shows is \<open>aiChoice_of r\<close>, whatever the
  player's gesture and the state, so two reveals with the same \<open>r\<close> show the same AI
  move. Rock is drawn exactly for \<open>r < (1 - 2\<^sup>-\<^sup>5\<^sup>4) / 3\<close>, Paper exactly from there up to
  \<open>(2 - 2\<^sup>-\<^sup>5\<^sup>3) / 3\<close>, Scissors exactly from there on: three intervals with bounds just
  below the thirds, none of length 1/3. A capture that yields a gesture stores it as the
  player's move, leaves the AI move as it was, and starts the reveal that holds this
  gesture. In every run from the initial state, a reveal is pending only if the run has
  captured its gesture before, and a reveal that cannot fire does nothing; only the
  reveal draws the AI move, and it computes the outcome and the scores from the move it
  drew.
\<close>

theorem ai_move_drawn_after_capture:
  "aiMove (reveal g1 r st1) = aiChoice_of r
   \<and> aiMove (reveal g2 r st2) = aiMove (reveal g1 r st1)
   \<and> {r. 0 \<le> r \<and> r \<le> 1 - 1 / 2 ^ 53 \<and> aiChoice_of r = Some Rock_label}
       = {0 ..< (1 - 1 / 2 ^ 54) / 3}
   \<and> {r. 0 \<le> r \<and> r \<le> 1 - 1 / 2 ^ 53 \<and> aiChoice_of r = Some Paper_label}
       = {(1 - 1 / 2 ^ 54) / 3 ..< (2 - 1 / 2 ^ 53) / 3}
   \<and> {r. 0 \<le> r \<and> r \<le> 1 - 1 / 2 ^ 53 \<and> aiChoice_of r = Some Scissors_label}
       = {(2 - 1 / 2 ^ 53) / 3 .. 1 - 1 / 2 ^ 53}
   \<and> (classifyGesture (Some hand) = Inr (Some g) \<longrightarrow>
        capturePose (hand # hands) st =
          (st\<lparr>result := msg_choosing, playerMove := g\<rparr>,
           [(1200, Reveal g), (4000, SetCountdownNull)])
        \<and> aiMove (fst (capturePose (hand # hands) st)) = aiMove st
        \<and> fire (Reveal g) r (fst (capturePose (hand # hands) st)) =
            reveal g r (st\<lparr>result := msg_choosing, playerMove := g\<rparr>))
   \<and> (Reveal g \<in> set (concat (fst (snd (sched_run evs (initial_state, [], 0))))) \<longrightarrow>
        (\<exists>hand hands. Capture (hand # hands) \<in> set evs
           \<and> classifyGesture (Some hand) = Inr (Some g)))
   \<and> (pop_timer (Reveal g) pend = None \<longrightarrow>
        sched_step (TimerFires (Reveal g) r) (st, pend, w) = (st, pend, w))
   \<and> reveal g r st =
       (case outcome_of g (aiChoice_of r) of
          Tie \<Rightarrow> st\<lparr>aiMove := aiChoice_of r, result := msg_tie\<rparr>
        | Win \<Rightarrow> st\<lparr>aiMove := aiChoice_of r, playerScore := playerScore st + 1,
                    result := msg_you_win\<rparr>
        | Lose \<Rightarrow> st\<lparr>aiMove := aiChoice_of r, aiScore := aiScore st + 1,
                     result := msg_ai_wins\<rparr>)"
proof -
  have drawn: "aiMove (reveal g r st) = aiChoice_of r" for g st
    by (simp add: reveal_def Let_def split: outcome.split)
  have rock: "{r. 0 \<le> r \<and> r \<le> 1 - 1 / 2 ^ 53 \<and> aiChoice_of r = Some Rock_label}
       = {0 ..< (1 - 1 / 2 ^ 54) / 3}"
    by (auto simp add: aiChoice_of_unit labels_distinct split: if_splits)
  have paper: "{r. 0 \<le> r \<and> r \<le> 1 - 1 / 2 ^ 53 \<and> aiChoice_of r = Some Paper_label}
       = {(1 - 1 / 2 ^ 54) / 3 ..< (2 - 1 / 2 ^ 53) / 3}"
    by (auto simp add: aiChoice_of_unit labels_distinct split: if_splits)
  have scissors: "{r. 0 \<le> r \<and> r \<le> 1 - 1 / 2 ^ 53 \<and> aiChoice_of r = Some Scissors_label}
       = {(2 - 1 / 2 ^ 53) / 3 .. 1 - 1 / 2 ^ 53}"
    by (auto simp add: aiChoice_of_unit labels_distinct split: if_splits)
  have capture: "capturePose (hand # hands) st =
      (st\<lparr>result := msg_choosing, playerMove := g\<rparr>,
       [(1200, Reveal g), (4000, SetCountdownNull)])"
    if "classifyGesture (Some hand) = Inr (Some g)"
    using that classifyGesture_label [OF that] by (simp add: capturePose_def)
  have before: "\<exists>hand hands. Capture (hand # hands) \<in> set evs
        \<and> classifyGesture (Some hand) = Inr (Some g)"
    if "Reveal g \<in> set (concat (fst (snd (sched_run evs (initial_state, [], 0)))))"
    using sched_run_pending [OF that] by simp
  have idle: "sched_step (TimerFires (Reveal g) r) (st, pend, w) = (st, pend, w)"
    if "pop_timer (Reveal g) pend = None"
    using that by (simp add: sched_step_def capture_starts_def)
  have rev: "reveal g r st =
      (case outcome_of g (aiChoice_of r) of
         Tie \<Rightarrow> st\<lparr>aiMove := aiChoice_of r, result := msg_tie\<rparr>
       | Win \<Rightarrow> st\<lparr>aiMove := aiChoice_of r, playerScore := playerScore st + 1,
                   result := msg_you_win\<rparr>
       | Lose \<Rightarrow> st\<lparr>aiMove := aiChoice_of r, aiScore := aiScore st + 1,
                    result := msg_ai_wins\<rparr>)"
    by (simp add: reveal_def Let_def split: outcome.split)
  have cap2: "classifyGesture (Some hand) = Inr (Some g) \<longrightarrow>
        capturePose (hand # hands) st =
          (st\<lparr>result := msg_choosing, playerMove := g\<rparr>,
           [(1200, Reveal g), (4000, SetCountdownNull)])
        \<and> aiMove (fst (capturePose (hand # hands) st)) = aiMove st
        \<and> fire (Reveal g) r (fst (capturePose (hand # hands) st)) =
            reveal g r (st\<lparr>result := msg_choosing, playerMove := g\<rparr>)"
    using capture by (simp add: capturePose_frame)
  from drawn [of g1 st1] drawn [of g2 st2] have d: "aiMove (reveal g1 r st1) = aiChoice_of r"
    "aiMove (reveal g2 r st2) = aiMove (reveal g1 r st1)"
    by simp_all
  from d rock paper scissors cap2 before idle rev show ?thesis
    by blast
qed

theorem ai_move_drawn_after_capture_witness:
  "aiMove (reveal Rock_label (1 / 2) initial_state) = Some Paper_label
   \<and> aiMove (reveal Scissors_label (1 / 2) (resetScores initial_state)) = Some Paper_label
   \<and> capturePose [flat_pose 100] initial_state =
       (initial_state\<lparr>result := msg_choosing, playerMove := Rock_label\<rparr>,
        [(1200, Reveal Rock_label), (4000, SetCountdownNull)])
   \<and> Reveal Rock_label \<in> set (concat (fst (snd (sched_run
        [ModelLoaded, ClickPlay, Tick, Tick, Tick, Capture [flat_pose 100]]
        (initial_state, [], 0)))))
   \<and> (\<exists>hand hands.
        Capture (hand # hands) \<in> set [ModelLoaded, ClickPlay, Tick, Tick, Tick, Capture [flat_pose 100]]
        \<and> classifyGesture (Some hand) = Inr (Some Rock_label))
   \<and> sched_step (TimerFires (Reveal Rock_label) (1 / 2)) (initial_state, [], 0)
       = (initial_state, [], 0)"
proof -
  let ?evs = "[ModelLoaded, ClickPlay, Tick, Tick, Tick, Capture [flat_pose 100]]"
  note t = ai_move_drawn_after_capture [of Rock_label "1 / 2" initial_state Scissors_label
      "resetScores initial_state" "flat_pose 100" Rock_label "[]" initial_state ?evs "[]" 0]
  from t have a: "aiMove (reveal Rock_label (1 / 2) initial_state) = aiChoice_of (1 / 2)"
    by (rule conjunct1)
  from t have b: "aiMove (reveal Scissors_label (1 / 2) (resetScores initial_state))
      = aiMove (reveal Rock_label (1 / 2) initial_state)"
    by (rule conjunct1 [OF conjunct2])
  from t classify_fist have d: "capturePose [flat_pose 100] initial_state =
       (initial_state\<lparr>result := msg_choosing, playerMove := Rock_label\<rparr>,
        [(1200, Reveal Rock_label), (4000, SetCountdownNull)])"
    by blast
  have p: "Reveal Rock_label \<in> set (concat (fst (snd (sched_run ?evs (initial_state, [], 0)))))"
    by (simp add: sched_step_def capture_starts_def initial_state_def playRound_def
        countdownTick_def capture_fist)
  from t p have e: "\<exists>hand hands. Capture (hand # hands) \<in> set ?evs
        \<and> classifyGesture (Some hand) = Inr (Some Rock_label)"
    by blast
  have n: "pop_timer (Reveal Rock_label) [] = None"
    by simp
  from t n have f: "sched_step (TimerFires (Reveal Rock_label) (1 / 2)) (initial_state, [], 0)
      = (initial_state, [], 0)"
    by blast
  from a b have ab: "aiMove (reveal Rock_label (1 / 2) initial_state) = Some Paper_label"
    "aiMove (reveal Scissors_label (1 / 2) (resetScores initial_state)) = Some Paper_label"
    by (simp_all add: aiChoice_of_examples)
  from ab d p e f show ?thesis
    by blast
qed

subsection \<open>C9: reset\<close>

lemma resetScores_fields:
  "playerScore (resetScores st) = 0" "aiScore (resetScores st) = 0"
  "countdown (resetScores st) = None" "playerMove (resetScores st) = ''?''"
  "aiMove (resetScores st) = Some ''?''" "detector (resetScores st) = detector st"
  by (simp_all add: resetScores_def)

text \<open>
  C9. \<open>resetScores\<close> assigns the six state variables, and cancels no timer. Pressed after a
  capture and before the reveal, it leaves the reveal of that round pending: when the
  reveal fires, the AI move and the message are written over the placeholders and the
  player's score becomes 1, although the component shows itself idle and the scores were
  reset. The round in flight was not returned to idle. The run below is that one: a fist
  is captured, Reset is pressed, the reveal fires with \<open>r = 7/8\<close> (Scissors).
\<close>

theorem reset_keeps_reveal_pending:
  "sched_run [ModelLoaded, ClickPlay, Tick, Tick, Tick, Capture [flat_pose 100], ClickReset,
       TimerFires (Reveal Rock_label) (7 / 8)] (initial_state, [], 0) =
     (\<lparr>detector = True, countdown = None, playerMove = ''?'', aiMove = Some Scissors_label,
       result = msg_you_win, playerScore = 1, aiScore = 0\<rparr>,
      [[SetCountdownNull]], 0)"
proof -
  have "sched_run [ModelLoaded, ClickPlay, Tick, Tick, Tick, Capture [flat_pose 100], ClickReset,
       TimerFires (Reveal Rock_label) (7 / 8)] (initial_state, [], 0) =
     sched_run [TimerFires (Reveal Rock_label) (7 / 8)]
       (sched_run [ModelLoaded, ClickPlay, Tick, Tick, Tick, Capture [flat_pose 100], ClickReset]
          (initial_state, [], 0))"
    by simp
  then show ?thesis
    unfolding reset_mid_round
    by (simp add: sched_step_def capture_starts_def reveal_def aiChoice_of_examples
        outcome_of_def labels_distinct)
qed

end
